theory Spec2Isabelle
  imports Main "HOL-Library.Char_ord" "HOL-Library.List_Lexorder" "HOL-Library.Multiset"
    "HOL-Library.Sublist"
begin

section \<open>Render targets and render stages (rpcore/render\_stage.cpp)\<close>

text \<open>
  Exceptions and invalid pointer uses are values: \<open>std::runtime_error\<close> with its message,
  \<open>std::out_of_range\<close> as \<open>std::unordered_map::at\<close> raises it, and the use of a pointer that
  refers to no owned object.
\<close>

datatype error = Runtime_error string | Out_of_range | Invalid_pointer

datatype shader = Loaded_shader "string list"
  \<comment> \<open>the handle \<open>RPLoader::load_shader(path_args)\<close> yields for these paths\<close>

text \<open>
  The class \<open>RenderTarget\<close> is defined outside \<open>render_stage.cpp\<close>. A render target
  is therefore an opaque object: its name and the sequence of member functions the
  stage has called on it, oldest call first.
\<close>

datatype target_call =
    Set_active bool
  | Consider_resize
  | Set_shader shader

record render_target =
  target_name :: string
  calls :: "target_call list"

definition RenderTarget :: "string \<Rightarrow> render_target" where
  "RenderTarget name = \<lparr>target_name = name, calls = []\<rparr>"

definition call_target :: "target_call \<Rightarrow> render_target \<Rightarrow> render_target" where
  "call_target c t = t\<lparr>calls := calls t @ [c]\<rparr>"

text \<open>
  \<open>targets_\<close> is an associative container from the fully qualified name to the uniquely
  owned target. It is kept as an association list in iteration order (ascending keys,
  bytewise lexicographic as \<open>std::string\<close> compares). A pointer to an owned target is
  the key of its entry.
\<close>

type_synonym target_ptr = string

record render_stage =
  plugin_id :: string
  stage_id :: string
  active :: bool
  targets :: "(string \<times> render_target) list"
  error_log :: "string list"

text \<open>\<open>targets_.find(k) != targets_.end()\<close>\<close>

definition has_target :: "(string \<times> render_target) list \<Rightarrow> string \<Rightarrow> bool" where
  "has_target ts k = (map_of ts k \<noteq> None)"

text \<open>\<open>targets_.emplace(k, v)\<close>: no insertion when the key is present.\<close>

fun emplace :: "string \<Rightarrow> render_target \<Rightarrow> (string \<times> render_target) list
    \<Rightarrow> (string \<times> render_target) list" where
  "emplace k v [] = [(k, v)]"
| "emplace k v ((k', v') # xs) =
     (if k < k' then (k, v) # (k', v') # xs
      else if k = k' then (k', v') # xs
      else (k', v') # emplace k v xs)"

text \<open>\<open>for (const auto& target: targets_) target.second->f();\<close>\<close>

fun for_each_target :: "(render_target \<Rightarrow> render_target) \<Rightarrow> (string \<times> render_target) list
    \<Rightarrow> (string \<times> render_target) list" where
  "for_each_target f [] = []"
| "for_each_target f ((k, t) # ts) = (k, f t) # for_each_target f ts"

definition set_active :: "bool \<Rightarrow> 'a render_stage_scheme \<Rightarrow> 'a render_stage_scheme" where
  "set_active state st =
     (if active st \<noteq> state then
        (let st1 = st\<lparr>active := state\<rparr>
         in st1\<lparr>targets := for_each_target (call_target (Set_active (active st1))) (targets st1)\<rparr>)
      else st)"

definition create_target :: "string \<Rightarrow> 'a render_stage_scheme
    \<Rightarrow> target_ptr option \<times> 'a render_stage_scheme" where
  "create_target name st =
     (let target_name = plugin_id st @ '':'' @ stage_id st @ '':'' @ name
      in if has_target (targets st) target_name then
           (None, st\<lparr>error_log := error_log st @ [''Overriding existing target: '' @ target_name]\<rparr>)
         else
           (Some target_name,
            st\<lparr>targets := emplace target_name (RenderTarget target_name) (targets st)\<rparr>))"

text \<open>
  \<open>set_dimensions\<close> is a virtual hook; the stage's own override is passed in.
\<close>

definition handle_window_resize :: "('a render_stage_scheme \<Rightarrow> 'a render_stage_scheme)
    \<Rightarrow> 'a render_stage_scheme \<Rightarrow> 'a render_stage_scheme" where
  "handle_window_resize set_dimensions st =
     (let st1 = set_dimensions st
      in st1\<lparr>targets := for_each_target (call_target Consider_resize) (targets st1)\<rparr>)"



subsection \<open>Shader handles\<close>

text \<open>
  \<open>Filename\<close> is the host engine's path type; it is a string here, and the two engine
  operations the code uses on it are parameters: \<open>to_os_generic\<close> and the path
  concatenation \<open>base_path / source\<close>. The stage manager's defines are a map.
\<close>

definition prefix_table :: "string list" where
  "prefix_table = [''/$$rpconfig'', ''/$$rp/shader'', ''/$$rptemp'']"

text \<open>\<open>s.find(p)\<close>: the first position at which \<open>p\<close> occurs in \<open>s\<close>; \<open>None\<close> is \<open>npos\<close>.\<close>

fun str_find :: "string \<Rightarrow> string \<Rightarrow> nat option" where
  "str_find [] p = (if p = [] then Some 0 else None)"
| "str_find (c # s) p =
     (if prefix p (c # s) then Some 0 else map_option Suc (str_find s p))"

text \<open>The inner loop over \<open>k\<close>, leaving at the first prefix found.\<close>

fun prefix_found :: "string list \<Rightarrow> string \<Rightarrow> bool" where
  "prefix_found [] generic = False"
| "prefix_found (p # ps) generic =
     (if str_find generic p \<noteq> None then True else prefix_found ps generic)"

text \<open>The loop over \<open>args\<close> that fills \<open>path_args\<close>.\<close>

fun collect_path_args :: "(string \<Rightarrow> string) \<Rightarrow> (string \<Rightarrow> string \<Rightarrow> string) \<Rightarrow> string
    \<Rightarrow> string list \<Rightarrow> string list \<Rightarrow> string list" where
  "collect_path_args to_os_generic join base_path [] path_args = path_args"
| "collect_path_args to_os_generic join base_path (source # rest) path_args =
     (if prefix_found prefix_table (to_os_generic source)
      then collect_path_args to_os_generic join base_path rest (path_args @ [source])
      else collect_path_args to_os_generic join base_path rest
             (path_args @ [join base_path source]))"

definition get_shader_handle :: "(string \<Rightarrow> string) \<Rightarrow> (string \<Rightarrow> string \<Rightarrow> string)
    \<Rightarrow> (string \<rightharpoonup> string) \<Rightarrow> string \<Rightarrow> string list \<Rightarrow> bool \<Rightarrow> bool \<Rightarrow> error + shader" where
  "get_shader_handle to_os_generic join defines base_path args stereo_post use_post_gs =
     (if length args \<le> 0 \<or> length args > 3 then
        Inl (Runtime_error ''args.size() <= 0 || args.size() > 3'')
      else
        let path_args = collect_path_args to_os_generic join base_path args []
        in if length args = 1 then
             (if stereo_post then
                (let path_args1 = ''/$$rp/shader/default_post_process_stereo.vert.glsl'' # path_args
                 in case defines ''NVIDIA_STEREO_VIEW'' of
                      None \<Rightarrow> Inl Out_of_range
                    | Some v \<Rightarrow>
                        if v = ''0'' \<or> use_post_gs then
                          Inr (Loaded_shader
                                 (path_args1 @ [''/$$rp/shader/default_post_process_stereo.geom.glsl'']))
                        else Inr (Loaded_shader path_args1))
              else
                Inr (Loaded_shader (''/$$rp/shader/default_post_process.vert.glsl'' # path_args)))
           else Inr (Loaded_shader path_args))"



text \<open>
  Specification of what becomes of one argument (C8): an argument whose generic form
  contains one of the prefixes is kept, any other is put under the base path.
\<close>

definition resolve_arg :: "(string \<Rightarrow> string) \<Rightarrow> (string \<Rightarrow> string \<Rightarrow> string) \<Rightarrow> string
    \<Rightarrow> string \<Rightarrow> string" where
  "resolve_arg to_os_generic join base_path source =
     (if \<exists>p \<in> set prefix_table. sublist p (to_os_generic source) then source
      else join base_path source)"


section \<open>The stage that updates the previous pipes (rpcore/stages/update\_previous\_pipes\_stage.cpp)\<close>

text \<open>
  Textures are engine objects shared through reference-counted pointers. The stage holds
  pairs of pointers, so the textures live in a store from addresses to texture states and
  two pairs may name the same texture.
\<close>

datatype texture_type =
    TT_1d_texture | TT_2d_texture | TT_3d_texture | TT_2d_texture_array
  | TT_cube_map | TT_buffer_texture | TT_cube_map_array | TT_1d_texture_array

record texture =
  tex_name :: string
  tex_type :: texture_type
  x_size :: int
  y_size :: int
  z_size :: int

type_synonym tex_ptr = nat

record update_previous_pipes_stage = render_stage +
  transfers :: "(tex_ptr \<times> tex_ptr) list"
  target_ptr :: "target_ptr option"
  textures :: "tex_ptr \<Rightarrow> texture"

text \<open>The body of the loop of \<open>set_dimensions\<close>, for one pair, and the loop.\<close>

definition resize_pair :: "int \<times> int \<Rightarrow> tex_ptr \<times> tex_ptr \<Rightarrow> (tex_ptr \<Rightarrow> texture)
    \<Rightarrow> (tex_ptr \<Rightarrow> texture)" where
  "resize_pair resolution from_to h =
     (let h1 = h(snd from_to := (h (snd from_to))\<lparr>x_size := fst resolution\<rparr>);
          h2 = h1(snd from_to := (h1 (snd from_to))\<lparr>y_size := snd resolution\<rparr>)
      in if tex_type (h2 (snd from_to)) = TT_2d_texture_array
         then h2(snd from_to := (h2 (snd from_to))\<lparr>z_size := z_size (h2 (fst from_to))\<rparr>)
         else h2)"

fun resize_pairs :: "int \<times> int \<Rightarrow> (tex_ptr \<times> tex_ptr) list \<Rightarrow> (tex_ptr \<Rightarrow> texture)
    \<Rightarrow> (tex_ptr \<Rightarrow> texture)" where
  "resize_pairs resolution [] h = h"
| "resize_pairs resolution (from_to # rest) h =
     resize_pairs resolution rest (resize_pair resolution from_to h)"

definition set_dimensions :: "int \<times> int \<Rightarrow> update_previous_pipes_stage
    \<Rightarrow> update_previous_pipes_stage" where
  "set_dimensions resolution st =
     st\<lparr>textures := resize_pairs resolution (transfers st) (textures st)\<rparr>"

















section \<open>The probe manager of the env\_probes plugin (probe\_manager.cpp)\<close>

text \<open>
  Environment probes are shared objects (\<open>std::shared_ptr\<close>): the manager stores
  pointers, and the probes live in a store from addresses to probe states, so the same
  probe may be handed to the manager more than once. \<open>max_probes\<close> is the capacity as
  the code compares it with \<open>size()\<close>, an unsigned number. The three storages are named
  by the images \<open>init\<close> creates.
\<close>

record environment_probe =
  last_update :: int
  index :: int

type_synonym probe_ptr = nat

record probe_manager =
  probes :: "probe_ptr list"
  max_probes :: nat
  resolution :: int
  diffuse_resolution :: int
  cubemap_storage :: "string option"
  diffuse_storage :: "string option"
  dataset_storage :: "string option"
  manager_errors :: "string list"
  probe_store :: "probe_ptr \<Rightarrow> environment_probe"

definition init :: "probe_manager \<Rightarrow> probe_manager" where
  "init pm = pm\<lparr>cubemap_storage := Some ''EnvmapStorage'',
               diffuse_storage := Some ''EnvmapDiffStorage'',
               dataset_storage := Some ''EnvmapData''\<rparr>"

definition add_probe :: "probe_ptr \<Rightarrow> probe_manager \<Rightarrow> bool \<times> probe_manager" where
  "add_probe probe pm =
     (if length (probes pm) \<ge> max_probes pm then
        (False, pm\<lparr>manager_errors := manager_errors pm @ [''Cannot attach probe, out of slots!'']\<rparr>)
      else
        let h1 = (probe_store pm)(probe := (probe_store pm probe)\<lparr>last_update := - 1\<rparr>);
            h2 = h1(probe := (h1 probe)\<lparr>index := int (length (probes pm))\<rparr>)
        in (True, pm\<lparr>probe_store := h2, probes := probes pm @ [probe]\<rparr>))"

text \<open>A sequence of \<open>add_probe\<close> calls, the results dropped.\<close>

fun add_probes :: "probe_ptr list \<Rightarrow> probe_manager \<Rightarrow> probe_manager" where
  "add_probes [] pm = pm"
| "add_probes (probe # rest) pm = add_probes rest (snd (add_probe probe pm))"

text \<open>
  The invariant of the probe list (C9): no more probes than the capacity, no probe stored
  twice, and every stored probe's index is its position.
\<close>

definition indexed :: "probe_manager \<Rightarrow> bool" where
  "indexed pm \<longleftrightarrow>
     length (probes pm) \<le> max_probes pm \<and> distinct (probes pm)
     \<and> (\<forall>i<length (probes pm). index (probe_store pm (probes pm ! i)) = int i)"

text \<open>
  \<open>view_frustum->contains(candidate->get_bounds())\<close> is the engine's intersection test;
  its result for each probe under the current camera is a parameter, a set of flags of
  which \<open>IF_no_intersection\<close> is the empty one.
\<close>

definition IF_no_intersection :: nat where
  "IF_no_intersection = 0"

text \<open>The loop over the sorted candidates.\<close>

fun first_candidate :: "(probe_ptr \<Rightarrow> nat) \<Rightarrow> probe_ptr list \<Rightarrow> probe_ptr option" where
  "first_candidate frustum_contains [] = None"
| "first_candidate frustum_contains (candidate # rest) =
     (if frustum_contains candidate = IF_no_intersection
      then first_candidate frustum_contains rest
      else Some candidate)"

text \<open>
  \<open>std::sort\<close> is a parameter: it is given the comparison and the copied vector. The
  standard fixes of its result only that it is a rearrangement of the vector in which
  no element compares less than an earlier one.
\<close>

definition find_probe_to_update ::
    "((probe_ptr \<Rightarrow> probe_ptr \<Rightarrow> bool) \<Rightarrow> probe_ptr list \<Rightarrow> probe_ptr list)
     \<Rightarrow> (probe_ptr \<Rightarrow> nat) \<Rightarrow> probe_manager \<Rightarrow> probe_ptr option \<times> probe_manager" where
  "find_probe_to_update std_sort frustum_contains pm =
     (if probes pm = [] then (None, pm)
      else
        let sorted_probes =
              std_sort (\<lambda>lhs rhs. last_update (probe_store pm lhs) < last_update (probe_store pm rhs))
                (probes pm)
        in (first_candidate frustum_contains sorted_probes, pm))"


section \<open>The env\_probes plugin (env\_probes\_plugin.cpp)\<close>

text \<open>
  The plugin acts on the pipeline through calls into other classes of the repository.
  The state holds what those calls change: the stages handed to \<open>add_stage\<close>,
  the required pipes and inputs of the capture stage (vectors reached through the
  references \<open>get_required_pipes()\<close> and \<open>get_required_inputs()\<close>), the settings made on
  the capture stage, the input blocks given to the stage manager and the global required
  inputs of the light culling stage. \<open>is_plugin_enabled\<close> is membership in
  \<open>enabled_plugins\<close>.
\<close>

datatype stage_kind = EnvironmentCaptureStage | CullProbesStage | ApplyEnvprobesStage

record capture_settings =
  capture_resolution :: int
  capture_diffuse_resolution :: int
  storage_tex :: string
  storage_tex_diffuse :: string

record plugin_settings =
  probe_resolution :: int
  diffuse_probe_resolution :: int
  max_probes_setting :: int

record env_probes_plugin =
  enabled_plugins :: "string set"
  pipeline_stages :: "stage_kind list"
  capture_required_pipes :: "string list"
  capture_required_inputs :: "string list"
  capture_stage :: "capture_settings option"
  input_blocks :: "(string \<times> string list) list"
  cull_lights_required_inputs :: "string list"
  probe_mgr :: "probe_manager option"

text \<open>
  Modelled from the spec: the source of \<open>BasePlugin::add_stage\<close> is missing.
  A plugin contributes nodes to the stage graph; the stage is registered with the
  pipeline, after the stages registered before.
\<close>

definition add_stage :: "stage_kind \<Rightarrow> env_probes_plugin \<Rightarrow> env_probes_plugin" where
  "add_stage stage st = st\<lparr>pipeline_stages := pipeline_stages st @ [stage]\<rparr>"

definition setup_inputs :: "probe_manager \<Rightarrow> env_probes_plugin \<Rightarrow> error + env_probes_plugin" where
  "setup_inputs pm st =
     (case (cubemap_storage pm, diffuse_storage pm, dataset_storage pm) of
        (Some cubemaps, Some diffuse, Some dataset) \<Rightarrow>
          Inr (st\<lparr>input_blocks := input_blocks st
                    @ [(''EnvProbes'', [''num_probes'', ''cubemaps'', ''diffuse_cubemaps'', ''dataset''])],
                  cull_lights_required_inputs := cull_lights_required_inputs st @ [''EnvProbes'']\<rparr>)
      | _ \<Rightarrow> Inl Invalid_pointer)"

definition setup_stages :: "env_probes_plugin \<Rightarrow> error + env_probes_plugin" where
  "setup_stages st =
     (case probe_mgr st of
        None \<Rightarrow> Inl Invalid_pointer
      | Some pm \<Rightarrow>
          (case (cubemap_storage pm, diffuse_storage pm) of
             (Some cubemaps, Some diffuse) \<Rightarrow>
               let st1 = add_stage EnvironmentCaptureStage st;
                   st2 = st1\<lparr>capture_stage := Some
                           \<lparr>capture_resolution = resolution pm,
                            capture_diffuse_resolution = diffuse_resolution pm,
                            storage_tex = cubemaps, storage_tex_diffuse = diffuse\<rparr>\<rparr>;
                   st3 = add_stage CullProbesStage st2;
                   st4 = add_stage ApplyEnvprobesStage st3;
                   st5 = (if ''scattering'' \<in> enabled_plugins st4 then
                            st4\<lparr>capture_required_pipes := capture_required_pipes st4
                                  @ [''ScatteringIBLSpecular''] @ [''ScatteringIBLDiffuse'']\<rparr>
                          else st4);
                   st6 = (if ''pssm'' \<in> enabled_plugins st5 then
                            st5\<lparr>capture_required_pipes := capture_required_pipes st5
                                  @ [''PSSMSceneSunShadowMapPCF''],
                                capture_required_inputs := capture_required_inputs st5
                                  @ [''PSSMSceneSunShadowMVP'']\<rparr>
                          else st5)
               in setup_inputs pm st6
           | _ \<Rightarrow> Inl Invalid_pointer))"

text \<open>
  \<open>on_stage_setup\<close> reads three integer settings. \<open>new_manager\<close> is the manager as
  its constructor leaves it. \<open>set_max_probes\<close> receives an \<open>int\<close>, and the capacity is
  that number as the unsigned comparison in \<open>add_probe\<close> reads it.
\<close>

definition on_stage_setup :: "plugin_settings \<Rightarrow> probe_manager \<Rightarrow> env_probes_plugin
    \<Rightarrow> error + env_probes_plugin" where
  "on_stage_setup settings new_manager st =
     (let pm1 = new_manager\<lparr>resolution := probe_resolution settings\<rparr>;
          pm2 = pm1\<lparr>diffuse_resolution := diffuse_probe_resolution settings\<rparr>;
          pm3 = pm2\<lparr>max_probes := nat (max_probes_setting settings mod 2 ^ 64)\<rparr>;
          pm4 = init pm3
      in setup_stages (st\<lparr>probe_mgr := Some pm4\<rparr>))"

text \<open>What a call sequence has appended to a vector: the part after its former length.\<close>

definition appended :: "'a list \<Rightarrow> 'a list \<Rightarrow> 'a list" where
  "appended before after = drop (length before) after"


section \<open>The stage manager\<close>

text \<open>
  Modelled from the spec: the source of the class \<open>StageManager\<close> is missing.
  A render stage declares the pipes it requires and the pipes it produces.
\<close>

record stage_decl =
  decl_id :: string
  required_pipes :: "string list"
  produced_pipes :: "string list"

text \<open>
  Modelled from the spec: the resource-dependency relation of the missing stage manager.
  A stage depends on another when it requires a pipe the other produces.
\<close>

definition depends_on :: "stage_decl \<Rightarrow> stage_decl \<Rightarrow> bool" where
  "depends_on s t = (\<exists>p \<in> set (required_pipes s). p \<in> set (produced_pipes t))"

definition dependency :: "stage_decl list \<Rightarrow> (stage_decl \<times> stage_decl) set" where
  "dependency stages = {(t, s). t \<in> set stages \<and> s \<in> set stages \<and> depends_on s t}"

text \<open>
  Modelled from the spec: in the missing stage manager, a stage can be placed next when
  none of the stages still to be placed produces a pipe it requires.
\<close>

definition ready :: "stage_decl list \<Rightarrow> stage_decl \<Rightarrow> bool" where
  "ready todo s = (\<forall>t \<in> set todo. \<not> depends_on s t)"

text \<open>
  Modelled from the spec: the topological sort of the missing stage manager. The first
  stage that can be placed is placed, until none is left; when no stage can be placed,
  the dependencies are cyclic and there is no order.
\<close>

function sort_stages :: "stage_decl list \<Rightarrow> stage_decl list option" where
  "sort_stages todo =
     (if todo = [] then Some []
      else case find (ready todo) todo of
             None \<Rightarrow> None
           | Some s \<Rightarrow> map_option (Cons s) (sort_stages (remove1 s todo)))"
  by pat_completeness auto
termination
proof (relation "measure length")
  show "wf (measure length)" by simp
next
  fix todo :: "stage_decl list" and s
  assume "todo \<noteq> []" and "find (ready todo) todo = Some s"
  then have "s \<in> set todo" by (auto simp: find_Some_iff)
  then have "length (remove1 s todo) < length todo"
    by (simp add: length_remove1) (metis length_pos_if_in_set diff_less zero_less_one One_nat_def)
  then show "(remove1 s todo, todo) \<in> measure length" by simp
qed

declare sort_stages.simps [simp del]

text \<open>
  Modelled from the spec: the callbacks the missing stage manager triggers, and the
  calls it makes, each recorded with the stage that receives it.
\<close>

datatype callback = Setup | Update | Reload_shaders

fun run_callbacks :: "callback \<Rightarrow> stage_decl list \<Rightarrow> (callback \<times> string) list" where
  "run_callbacks cb [] = []"
| "run_callbacks cb (s # rest) = (cb, decl_id s) # run_callbacks cb rest"

text \<open>
  Modelled from the spec: the missing stage manager triggers a callback on the stages in
  dependency order.
\<close>

definition trigger :: "callback \<Rightarrow> stage_decl list \<Rightarrow> (callback \<times> string) list option" where
  "trigger cb stages = map_option (run_callbacks cb) (sort_stages stages)"


section \<open>Example states\<close>

text \<open>Concrete stages, textures, file systems and managers on which the theorems are run.\<close>

definition example_stage :: render_stage where
  "example_stage = \<lparr>plugin_id = ''rp'', stage_id = ''S'', active = True,
     targets = [(''rp:S:a'', \<lparr>target_name = ''rp:S:a'', calls = []\<rparr>),
                (''rp:S:b'', \<lparr>target_name = ''rp:S:b'', calls = [Consider_resize]\<rparr>)],
     error_log = []\<rparr>"

definition chained_stage :: update_previous_pipes_stage where
  "chained_stage = \<lparr>plugin_id = ''render_pipeline_internal'', stage_id = ''UpdatePreviousPipesStage'',
     active = True, targets = [], error_log = [],
     transfers = [(0, 1), (1, 2), (3, 2)], target_ptr = None,
     textures = (\<lambda>p. \<lparr>tex_name = ''T'', tex_type = TT_2d_texture_array,
                          x_size = 10, y_size = 10, z_size = int p + 2\<rparr>)\<rparr>"

definition separate_stage :: update_previous_pipes_stage where
  "separate_stage = \<lparr>plugin_id = ''render_pipeline_internal'', stage_id = ''UpdatePreviousPipesStage'',
     active = True, targets = [], error_log = [],
     transfers = [(0, 1), (2, 3)], target_ptr = None,
     textures = (\<lambda>p. \<lparr>tex_name = ''T'',
                          tex_type = (if p = 3 then TT_2d_texture else TT_2d_texture_array),
                          x_size = 10, y_size = 10, z_size = int p + 2\<rparr>)\<rparr>"

definition plain_join :: "string \<Rightarrow> string \<Rightarrow> string" where
  "plain_join dir name = dir @ name"

definition stereo_defines :: "string \<rightharpoonup> string" where
  "stereo_defines = [''NVIDIA_STEREO_VIEW'' \<mapsto> ''0'']"

definition example_textures :: "tex_ptr \<Rightarrow> texture" where
  "example_textures p =
     \<lparr>tex_name = (if p = 0 then ''SceneDepth'' else ''PreviousDepth''),
      tex_type = (if p < 2 then TT_2d_texture else TT_2d_texture_array),
      x_size = 10, y_size = 10, z_size = 1\<rparr>"

definition example_previous_pipes :: update_previous_pipes_stage where
  "example_previous_pipes = \<lparr>plugin_id = ''render_pipeline_internal'',
     stage_id = ''UpdatePreviousPipesStage'', active = True,
     targets = [(''render_pipeline_internal:UpdatePreviousPipesStage:StorePreviousPipes'',
                 \<lparr>target_name = ''render_pipeline_internal:UpdatePreviousPipesStage:StorePreviousPipes'',
                    calls = []\<rparr>)],
     error_log = [],
     transfers = [(0, 1)],
     target_ptr = Some ''render_pipeline_internal:UpdatePreviousPipesStage:StorePreviousPipes'',
     textures = example_textures\<rparr>"



definition store_target :: string where
  "store_target = ''render_pipeline_internal:UpdatePreviousPipesStage:StorePreviousPipes''"


definition empty_manager :: probe_manager where
  "empty_manager =
     \<lparr>probes = [], max_probes = 2, resolution = 128, diffuse_resolution = 4,
      cubemap_storage = Some ''EnvmapStorage'', diffuse_storage = Some ''EnvmapDiffStorage'',
      dataset_storage = Some ''EnvmapData'', manager_errors = [],
      probe_store = (\<lambda>p. \<lparr>last_update = int p, index = - 1\<rparr>)\<rparr>"

text \<open>A sorting function to run \<open>find_probe_to_update\<close> with.\<close>

fun insert_by :: "('a \<Rightarrow> 'a \<Rightarrow> bool) \<Rightarrow> 'a \<Rightarrow> 'a list \<Rightarrow> 'a list" where
  "insert_by lt x [] = [x]"
| "insert_by lt x (y # ys) = (if lt y x then y # insert_by lt x ys else x # y # ys)"

fun insertion_sort :: "('a \<Rightarrow> 'a \<Rightarrow> bool) \<Rightarrow> 'a list \<Rightarrow> 'a list" where
  "insertion_sort lt [] = []"
| "insertion_sort lt (x # xs) = insert_by lt x (insertion_sort lt xs)"

definition viewing_manager :: probe_manager where
  "viewing_manager =
     \<lparr>probes = [4, 2, 9], max_probes = 3, resolution = 128, diffuse_resolution = 4,
      cubemap_storage = Some ''EnvmapStorage'', diffuse_storage = Some ''EnvmapDiffStorage'',
      dataset_storage = Some ''EnvmapData'', manager_errors = [],
      probe_store = (\<lambda>p. \<lparr>last_update = int p, index = 0\<rparr>)\<rparr>"

definition example_frustum :: "probe_ptr \<Rightarrow> nat" where
  "example_frustum p = (if p = 2 then 0 else 2)"

definition fresh_manager :: probe_manager where
  "fresh_manager =
     \<lparr>probes = [], max_probes = 0, resolution = 0, diffuse_resolution = 0,
      cubemap_storage = None, diffuse_storage = None, dataset_storage = None,
      manager_errors = [], probe_store = (\<lambda>p. \<lparr>last_update = 0, index = 0\<rparr>)\<rparr>"

definition example_settings :: plugin_settings where
  "example_settings = \<lparr>probe_resolution = 128, diffuse_probe_resolution = 4, max_probes_setting = 3\<rparr>"

definition example_plugin :: "string set \<Rightarrow> env_probes_plugin" where
  "example_plugin enabled =
     \<lparr>enabled_plugins = enabled, pipeline_stages = [],
      capture_required_pipes = [''DefaultEnvmap''], capture_required_inputs = [''AllLightsData''],
      capture_stage = None, input_blocks = [], cull_lights_required_inputs = [],
      probe_mgr = None\<rparr>"

definition gbuffer_stage :: stage_decl where
  "gbuffer_stage = \<lparr>decl_id = ''GBufferStage'', required_pipes = [], produced_pipes = [''GBuffer'']\<rparr>"

definition ao_stage :: stage_decl where
  "ao_stage = \<lparr>decl_id = ''AOStage'', required_pipes = [''GBuffer''],
     produced_pipes = [''AmbientOcclusion'']\<rparr>"

definition final_stage :: stage_decl where
  "final_stage = \<lparr>decl_id = ''FinalStage'', required_pipes = [''GBuffer'', ''AmbientOcclusion''],
     produced_pipes = []\<rparr>"

section \<open>Properties of the render stage\<close>

lemma for_each_target_map:
  "for_each_target f ts = map (\<lambda>(k, t). (k, f t)) ts"
  by (induction ts) auto

lemma for_each_target_keys [simp]: "map fst (for_each_target f ts) = map fst ts"
  by (induction ts) auto

lemma for_each_target_lookup:
  "map_of (for_each_target f ts) k = map_option f (map_of ts k)"
  by (induction ts) auto

lemma map_of_emplace:
  "map_of ts k = None \<Longrightarrow> map_of (emplace k v ts) = (map_of ts)(k \<mapsto> v)"
  by (induction ts) (auto simp: fun_upd_twist split: if_splits)

lemma set_emplace:
  "map_of ts k = None \<Longrightarrow> set (emplace k v ts) = insert (k, v) (set ts)"
  by (induction ts) (auto split: if_splits)

lemma keys_emplace: "fst ` set (emplace k v ts) = insert k (fst ` set ts)"
proof (induction ts)
  case Nil
  then show ?case by simp
next
  case (Cons a ts)
  obtain k' v' where a: "a = (k', v')" by (cases a)
  show ?case unfolding a using Cons.IH by (simp add: insert_commute insert_absorb)
qed

lemma distinct_emplace:
  "map_of ts k = None \<Longrightarrow> distinct (map fst ts) \<Longrightarrow> distinct (map fst (emplace k v ts))"
proof (induction ts)
  case Nil
  then show ?case by simp
next
  case (Cons a ts)
  obtain k' v' where a: "a = (k', v')" by (cases a)
  from Cons.prems a have ne: "k \<noteq> k'" and none: "map_of ts k = None"
    by (auto split: if_splits)
  from none have "k \<notin> fst ` set ts" by (simp add: map_of_eq_None_iff)
  with Cons a ne none show ?case by (auto simp: keys_emplace)
qed

lemma sorted_emplace:
  "sorted (map fst ts) \<Longrightarrow> sorted (map fst (emplace k v ts))"
proof (induction ts)
  case Nil
  then show ?case by simp
next
  case (Cons a ts)
  obtain k' v' where a: "a = (k', v')" by (cases a)
  from Cons a show ?case by (auto simp: keys_emplace less_le)
qed


text \<open>
  C6 (as amended). \<open>set_active b\<close> leaves the stage with active flag \<open>b\<close>. When \<open>b\<close>
  differs from the current flag, \<open>set_active b\<close> has been called once on every owned
  target (appended to the calls made on it before) and nothing else changes; when \<open>b\<close>
  equals the current flag, the stage and all its targets are exactly as before.
\<close>

theorem set_active_effect:
  "active (set_active b st) = b
   \<and> (b \<noteq> active st \<longrightarrow>
        set_active b st = st\<lparr>active := b,
          targets := map (\<lambda>(k, t). (k, t\<lparr>calls := calls t @ [Set_active b]\<rparr>)) (targets st)\<rparr>)
   \<and> (b = active st \<longrightarrow> set_active b st = st)"
  by (simp add: set_active_def for_each_target_map call_target_def Let_def)

theorem set_active_effect_witness:
  "False \<noteq> active example_stage
   \<and> active (set_active False example_stage) = False
   \<and> targets (set_active False example_stage) =
       [(''rp:S:a'', \<lparr>target_name = ''rp:S:a'', calls = [Set_active False]\<rparr>),
        (''rp:S:b'', \<lparr>target_name = ''rp:S:b'', calls = [Consider_resize, Set_active False]\<rparr>)]
   \<and> True = active example_stage
   \<and> set_active True example_stage = example_stage"
  using set_active_effect [of False example_stage] set_active_effect [of True example_stage]
  by (simp add: example_stage_def)

text \<open>
  C6 as stated fails when \<open>b\<close> equals the current flag: the targets are not touched, so a
  target whose active state was never set to \<open>b\<close> still has not had it set. On the active
  example stage, \<open>set_active True\<close> leaves both targets without any \<open>set_active\<close> call. And
  a target created while the stage is inactive is never told: after \<open>set_active False\<close>,
  \<open>create_target c\<close> and \<open>set_active False\<close> again, the new target has received no call.
\<close>

theorem set_active_untouched_targets:
  "active example_stage = True
   \<and> active (set_active True example_stage) = True
   \<and> targets (set_active True example_stage) =
       [(''rp:S:a'', \<lparr>target_name = ''rp:S:a'', calls = []\<rparr>),
        (''rp:S:b'', \<lparr>target_name = ''rp:S:b'', calls = [Consider_resize]\<rparr>)]
   \<and> active (set_active False (snd (create_target ''c'' (set_active False example_stage)))) = False
   \<and> targets (set_active False (snd (create_target ''c'' (set_active False example_stage)))) =
       [(''rp:S:a'', \<lparr>target_name = ''rp:S:a'', calls = [Set_active False]\<rparr>),
        (''rp:S:b'', \<lparr>target_name = ''rp:S:b'', calls = [Consider_resize, Set_active False]\<rparr>),
        (''rp:S:c'', \<lparr>target_name = ''rp:S:c'', calls = []\<rparr>)]"
  by (simp add: example_stage_def set_active_def create_target_def has_target_def
        RenderTarget_def call_target_def Let_def)

text \<open>
  C2. \<open>handle_window_resize\<close> runs the stage's \<open>set_dimensions\<close> hook first and then calls
  \<open>consider_resize\<close> once on every target the stage owns after the hook: the result is
  the hook's result with \<open>Consider_resize\<close> appended to the calls of each owned target.
\<close>

theorem handle_window_resize_effect:
  "handle_window_resize set_dimensions_hook st =
     (set_dimensions_hook st)\<lparr>targets :=
        map (\<lambda>(k, t). (k, t\<lparr>calls := calls t @ [Consider_resize]\<rparr>))
          (targets (set_dimensions_hook st))\<rparr>"
  by (simp add: handle_window_resize_def for_each_target_map call_target_def Let_def)

theorem handle_window_resize_effect_witness:
  "targets (handle_window_resize (set_dimensions (800, 600)) example_previous_pipes) =
     [(store_target, \<lparr>target_name = store_target, calls = [Consider_resize]\<rparr>)]
   \<and> textures (handle_window_resize (set_dimensions (800, 600)) example_previous_pipes) 1 =
     \<lparr>tex_name = ''PreviousDepth'', tex_type = TT_2d_texture, x_size = 800, y_size = 600, z_size = 1\<rparr>"
  using handle_window_resize_effect [of "set_dimensions (800, 600)" example_previous_pipes]
  by (simp add: example_previous_pipes_def store_target_def set_dimensions_def resize_pair_def
        example_textures_def)

text \<open>
  C3. With \<open>key\<close> the fully qualified name \<open>plugin_id:stage_id:name\<close>: when no target is
  registered under \<open>key\<close>, \<open>create_target name\<close> returns a pointer to a new target named
  \<open>key\<close>, registered under \<open>key\<close>, and changes nothing but the target map; when a target is
  registered under \<open>key\<close>, it returns the null pointer, reports the error and leaves the
  target map unchanged. A target map with pairwise different keys keeps pairwise
  different keys.
\<close>

theorem create_target_effect:
  "let key = plugin_id st @ '':'' @ stage_id st @ '':'' @ name;
       r = create_target name st
   in (map_of (targets st) key = None \<longrightarrow>
            fst r = Some key
          \<and> map_of (targets (snd r)) = (map_of (targets st))(key \<mapsto> \<lparr>target_name = key, calls = []\<rparr>)
          \<and> snd r = st\<lparr>targets := targets (snd r)\<rparr>)
       \<and> (map_of (targets st) key \<noteq> None \<longrightarrow>
            fst r = None
          \<and> targets (snd r) = targets st
          \<and> snd r = st\<lparr>error_log := error_log st @ [''Overriding existing target: '' @ key]\<rparr>)
       \<and> (distinct (map fst (targets st)) \<longrightarrow> distinct (map fst (targets (snd r))))"
proof (cases "map_of (targets st) (plugin_id st @ '':'' @ stage_id st @ '':'' @ name)")
  case None
  then show ?thesis
    by (simp add: create_target_def has_target_def Let_def map_of_emplace
          RenderTarget_def distinct_emplace)
next
  case (Some t)
  then show ?thesis
    by (simp add: create_target_def has_target_def Let_def)
qed

theorem create_target_effect_witness:
  "map_of (targets example_stage) ''rp:S:c'' = None
   \<and> distinct (map fst (targets example_stage))
   \<and> create_target ''c'' example_stage =
        (Some ''rp:S:c'', example_stage\<lparr>targets := targets example_stage @
            [(''rp:S:c'', \<lparr>target_name = ''rp:S:c'', calls = []\<rparr>)]\<rparr>)
   \<and> distinct (map fst (targets (snd (create_target ''c'' example_stage))))
   \<and> map_of (targets example_stage) ''rp:S:a'' \<noteq> None
   \<and> fst (create_target ''a'' example_stage) = None
   \<and> targets (snd (create_target ''a'' example_stage)) = targets example_stage"
  using create_target_effect [of example_stage "''c''"] create_target_effect [of example_stage "''a''"]
  by (simp add: example_stage_def create_target_def has_target_def RenderTarget_def Let_def)


subsection \<open>Shader handles\<close>

lemma str_find_sublist: "str_find s p \<noteq> None \<longleftrightarrow> sublist p s"
  by (induction s) (auto simp: sublist_Cons_right)

lemma prefix_found_iff:
  "prefix_found ps generic \<longleftrightarrow> (\<exists>p \<in> set ps. sublist p generic)"
  by (induction ps) (auto simp: str_find_sublist [symmetric])

lemma collect_path_args_map:
  "collect_path_args to_os_generic join base_path args path_args =
     path_args @ map (resolve_arg to_os_generic join base_path) args"
  by (induction args arbitrary: path_args) (simp_all add: prefix_found_iff resolve_arg_def)

text \<open>
  C8 (as amended). \<open>get_shader_handle\<close> raises \<open>std::runtime_error\<close> exactly when the
  argument list is empty or has more than three elements. With two or three arguments it
  loads the arguments, each kept when its generic form contains one of the three prefixes
  and put under the base path otherwise. With exactly one argument it puts the default
  post-process vertex shader in front; with \<open>stereo_post\<close> that is the stereo variant, and
  then the define \<open>NVIDIA_STEREO_VIEW\<close> is looked up: when it is present, the stereo
  geometry shader is appended exactly when the define is \<open>0\<close> or \<open>use_post_gs\<close> holds;
  when it is absent, the lookup raises \<open>std::out_of_range\<close> and nothing is loaded.
\<close>

theorem get_shader_handle_cases:
  "((\<exists>msg. get_shader_handle to_os_generic join defines base_path args stereo_post use_post_gs
              = Inl (Runtime_error msg))
      \<longleftrightarrow> args = [] \<or> length args > 3)
   \<and> (2 \<le> length args \<and> length args \<le> 3 \<longrightarrow>
        get_shader_handle to_os_generic join defines base_path args stereo_post use_post_gs
          = Inr (Loaded_shader (map (resolve_arg to_os_generic join base_path) args)))
   \<and> (args = [a] \<and> \<not> stereo_post \<longrightarrow>
        get_shader_handle to_os_generic join defines base_path args stereo_post use_post_gs
          = Inr (Loaded_shader [''/$$rp/shader/default_post_process.vert.glsl'',
                                resolve_arg to_os_generic join base_path a]))
   \<and> (args = [a] \<and> stereo_post \<and> defines ''NVIDIA_STEREO_VIEW'' = Some v \<longrightarrow>
        get_shader_handle to_os_generic join defines base_path args stereo_post use_post_gs
          = Inr (Loaded_shader
                  ([''/$$rp/shader/default_post_process_stereo.vert.glsl'',
                    resolve_arg to_os_generic join base_path a]
                   @ (if v = ''0'' \<or> use_post_gs
                      then [''/$$rp/shader/default_post_process_stereo.geom.glsl''] else []))))
   \<and> (args = [a] \<and> stereo_post \<and> defines ''NVIDIA_STEREO_VIEW'' = None \<longrightarrow>
        get_shader_handle to_os_generic join defines base_path args stereo_post use_post_gs
          = Inl Out_of_range)"
proof -
  let ?g = "get_shader_handle to_os_generic join defines base_path args stereo_post use_post_gs"
  have c1: "(\<exists>msg. ?g = Inl (Runtime_error msg)) \<longleftrightarrow> args = [] \<or> length args > 3"
    by (auto simp: get_shader_handle_def Let_def split: option.splits)
  have c2: "2 \<le> length args \<and> length args \<le> 3 \<longrightarrow>
      ?g = Inr (Loaded_shader (map (resolve_arg to_os_generic join base_path) args))"
    by (auto simp: get_shader_handle_def Let_def collect_path_args_map)
  have c3: "args = [a] \<and> \<not> stereo_post \<longrightarrow>
      ?g = Inr (Loaded_shader [''/$$rp/shader/default_post_process.vert.glsl'',
                                resolve_arg to_os_generic join base_path a])"
    by (simp add: get_shader_handle_def Let_def collect_path_args_map)
  have c4: "args = [a] \<and> stereo_post \<and> defines ''NVIDIA_STEREO_VIEW'' = Some v \<longrightarrow>
      ?g = Inr (Loaded_shader
                  ([''/$$rp/shader/default_post_process_stereo.vert.glsl'',
                    resolve_arg to_os_generic join base_path a]
                   @ (if v = ''0'' \<or> use_post_gs
                      then [''/$$rp/shader/default_post_process_stereo.geom.glsl''] else [])))"
    by (simp add: get_shader_handle_def Let_def collect_path_args_map)
  have c5: "args = [a] \<and> stereo_post \<and> defines ''NVIDIA_STEREO_VIEW'' = None \<longrightarrow>
      ?g = Inl Out_of_range"
    by (simp add: get_shader_handle_def Let_def)
  from c1 c2 c3 c4 c5 show ?thesis by blast
qed

theorem get_shader_handle_cases_witness:
  "length ([] :: string list) = 0
   \<and> get_shader_handle (\<lambda>f. f) plain_join stereo_defines ''/plugin/'' [] False False
       = Inl (Runtime_error ''args.size() <= 0 || args.size() > 3'')
   \<and> 2 \<le> length [''a.vert.glsl'', ''/$$rptemp/b.frag.glsl'']
   \<and> length [''a.vert.glsl'', ''/$$rptemp/b.frag.glsl''] \<le> 3
   \<and> get_shader_handle (\<lambda>f. f) plain_join stereo_defines ''/plugin/''
         [''a.vert.glsl'', ''/$$rptemp/b.frag.glsl''] True False
       = Inr (Loaded_shader [''/plugin/a.vert.glsl'', ''/$$rptemp/b.frag.glsl''])
   \<and> get_shader_handle (\<lambda>f. f) plain_join stereo_defines ''/plugin/'' [''c.frag.glsl''] False False
       = Inr (Loaded_shader [''/$$rp/shader/default_post_process.vert.glsl'', ''/plugin/c.frag.glsl''])
   \<and> stereo_defines ''NVIDIA_STEREO_VIEW'' = Some ''0''
   \<and> get_shader_handle (\<lambda>f. f) plain_join stereo_defines ''/plugin/'' [''c.frag.glsl''] True False
       = Inr (Loaded_shader [''/$$rp/shader/default_post_process_stereo.vert.glsl'',
            ''/plugin/c.frag.glsl'', ''/$$rp/shader/default_post_process_stereo.geom.glsl''])
   \<and> (Map.empty :: string \<rightharpoonup> string) ''NVIDIA_STEREO_VIEW'' = None
   \<and> get_shader_handle (\<lambda>f. f) plain_join Map.empty ''/plugin/'' [''c.frag.glsl''] True False
       = Inl Out_of_range"
  using
    get_shader_handle_cases [of "\<lambda>f. f" plain_join stereo_defines "''/plugin/''" "[]" False False]
    get_shader_handle_cases [of "\<lambda>f. f" plain_join stereo_defines "''/plugin/''"
      "[''a.vert.glsl'', ''/$$rptemp/b.frag.glsl'']" True False]
    get_shader_handle_cases [of "\<lambda>f. f" plain_join stereo_defines "''/plugin/''"
      "[''c.frag.glsl'']" False False "''c.frag.glsl''"]
    get_shader_handle_cases [of "\<lambda>f. f" plain_join stereo_defines "''/plugin/''"
      "[''c.frag.glsl'']" True False "''c.frag.glsl''" "''0''"]
    get_shader_handle_cases [of "\<lambda>f. f" plain_join Map.empty "''/plugin/''"
      "[''c.frag.glsl'']" True False "''c.frag.glsl''"]
  by (simp add: resolve_arg_def prefix_table_def plain_join_def stereo_defines_def
        get_shader_handle_def)

text \<open>
  C8 as stated fails when the define is absent: with one argument, \<open>stereo_post\<close> and
  \<open>use_post_gs\<close> both true, no geometry shader is appended and no shader is loaded,
  the lookup raises \<open>std::out_of_range\<close>.
\<close>

theorem get_shader_handle_missing_define:
  "get_shader_handle (\<lambda>f. f) plain_join Map.empty ''/$$rp/shader/'' [''blur.frag.glsl''] True True
     = Inl Out_of_range"
  by (simp add: get_shader_handle_def)


section \<open>Properties of the stage that updates the previous pipes\<close>

lemma resize_pair_other: "p \<noteq> snd a \<Longrightarrow> resize_pair res a h p = h p"
  by (simp add: resize_pair_def Let_def)

lemma resize_pair_dest:
  "resize_pair res a h (snd a) =
     (h (snd a))\<lparr>x_size := fst res, y_size := snd res,
       z_size := (if tex_type (h (snd a)) = TT_2d_texture_array
                  then (if fst a = snd a then z_size (h (snd a)) else z_size (h (fst a)))
                  else z_size (h (snd a)))\<rparr>"
  by (simp add: resize_pair_def Let_def)

lemma resize_pairs_other:
  "p \<notin> snd ` set ts \<Longrightarrow> resize_pairs res ts h p = h p"
  by (induction ts arbitrary: h) (simp_all add: resize_pair_other)

lemma resize_pair_static:
  "tex_name (resize_pair res a h p) = tex_name (h p) \<and> tex_type (resize_pair res a h p) = tex_type (h p)"
  by (cases "p = snd a") (simp_all add: resize_pair_other resize_pair_dest)

lemma resize_pairs_static:
  "tex_name (resize_pairs res ts h p) = tex_name (h p) \<and> tex_type (resize_pairs res ts h p) = tex_type (h p)"
  by (induction ts arbitrary: h) (simp_all add: resize_pair_static)

lemma resize_pairs_xy:
  "p \<in> snd ` set ts \<Longrightarrow>
     x_size (resize_pairs res ts h p) = fst res \<and> y_size (resize_pairs res ts h p) = snd res"
proof (induction ts arbitrary: h)
  case Nil
  then show ?case by simp
next
  case (Cons a ts)
  show ?case
  proof (cases "p \<in> snd ` set ts")
    case True
    then show ?thesis using Cons.IH by simp
  next
    case False
    with Cons.prems have "p = snd a" by simp
    with False show ?thesis by (simp add: resize_pairs_other resize_pair_dest)
  qed
qed

lemma resize_pairs_z:
  assumes "distinct (map snd ts)" and "fst ` set ts \<inter> snd ` set ts = {}" and "(s, d) \<in> set ts"
  shows "z_size (resize_pairs res ts h d) =
           (if tex_type (h d) = TT_2d_texture_array then z_size (h s) else z_size (h d))"
  using assms
proof (induction ts arbitrary: h)
  case Nil
  then show ?case by simp
next
  case (Cons a ts)
  from Cons.prems(1) have dist: "snd a \<notin> snd ` set ts" "distinct (map snd ts)"
    by simp_all
  from Cons.prems(2) have disj: "fst ` set ts \<inter> snd ` set ts = {}"
    and nsrc: "snd a \<notin> fst ` set ts" and self: "fst a \<noteq> snd a"
    by (auto simp: disjoint_iff)
  show ?case
  proof (cases "(s, d) = a")
    case True
    then have a: "fst a = s" "snd a = d" by auto
    from dist a have "d \<notin> snd ` set ts" by simp
    then have "resize_pairs res ts (resize_pair res a h) d = resize_pair res a h d"
      by (rule resize_pairs_other)
    with self a show ?thesis
      using resize_pair_dest [of res a h] by simp
  next
    case False
    with Cons.prems(3) have mem: "(s, d) \<in> set ts" by simp
    then have "d \<in> snd ` set ts" and "s \<in> fst ` set ts"
      by (metis image_eqI snd_conv, metis image_eqI fst_conv)
    with dist nsrc have ne: "d \<noteq> snd a" "s \<noteq> snd a" by blast+
    show ?thesis
      using Cons.IH [OF dist(2) disj mem, of "resize_pair res a h"] ne
      by (simp add: resize_pair_other resize_pair_static)
  qed
qed

text \<open>
  C7 (as amended). When no texture is the destination of two pairs and no texture is both
  a source and a destination, \<open>set_dimensions\<close> gives every destination texture the
  global resolution as x and y size, gives it the z size of its source exactly when the
  destination is a 2D texture array (and keeps its z size otherwise), keeps its name and
  type, and leaves every texture that is not a destination (so every source) and every
  other field of the stage unchanged.
\<close>

theorem set_dimensions_effect:
  assumes "distinct (map snd (transfers st))"
    and "fst ` set (transfers st) \<inter> snd ` set (transfers st) = {}"
  shows "(\<forall>(s, d) \<in> set (transfers st).
            x_size (textures (set_dimensions res st) d) = fst res
          \<and> y_size (textures (set_dimensions res st) d) = snd res
          \<and> z_size (textures (set_dimensions res st) d) =
              (if tex_type (textures st d) = TT_2d_texture_array
               then z_size (textures st s) else z_size (textures st d))
          \<and> tex_name (textures (set_dimensions res st) d) = tex_name (textures st d)
          \<and> tex_type (textures (set_dimensions res st) d) = tex_type (textures st d)
          \<and> textures (set_dimensions res st) s = textures st s)
       \<and> (\<forall>p. p \<notin> snd ` set (transfers st) \<longrightarrow>
            textures (set_dimensions res st) p = textures st p)
       \<and> set_dimensions res st = st\<lparr>textures := textures (set_dimensions res st)\<rparr>"
proof -
  let ?h = "textures st" and ?ts = "transfers st"
  have tex: "textures (set_dimensions res st) = resize_pairs res ?ts ?h"
    by (simp add: set_dimensions_def)
  have pairs: "x_size (resize_pairs res ?ts ?h d) = fst res
      \<and> y_size (resize_pairs res ?ts ?h d) = snd res
      \<and> z_size (resize_pairs res ?ts ?h d) =
          (if tex_type (?h d) = TT_2d_texture_array then z_size (?h s) else z_size (?h d))
      \<and> tex_name (resize_pairs res ?ts ?h d) = tex_name (?h d)
      \<and> tex_type (resize_pairs res ?ts ?h d) = tex_type (?h d)
      \<and> resize_pairs res ?ts ?h s = ?h s"
    if mem: "(s, d) \<in> set ?ts" for s d
  proof -
    from mem have d: "d \<in> snd ` set ?ts" by force
    from mem assms(2) have s: "s \<notin> snd ` set ?ts" by force
    show ?thesis
      using resize_pairs_xy [OF d, of res ?h] resize_pairs_z [OF assms mem, of res ?h]
        resize_pairs_static [of res ?ts ?h d] resize_pairs_other [OF s, of res ?h]
      by simp
  qed
  have frame: "\<forall>p. p \<notin> snd ` set ?ts \<longrightarrow> resize_pairs res ?ts ?h p = ?h p"
    by (simp add: resize_pairs_other)
  have rest: "set_dimensions res st = st\<lparr>textures := textures (set_dimensions res st)\<rparr>"
    by (simp add: set_dimensions_def)
  from pairs have "\<forall>(s, d) \<in> set ?ts.
      x_size (resize_pairs res ?ts ?h d) = fst res
      \<and> y_size (resize_pairs res ?ts ?h d) = snd res
      \<and> z_size (resize_pairs res ?ts ?h d) =
          (if tex_type (?h d) = TT_2d_texture_array then z_size (?h s) else z_size (?h d))
      \<and> tex_name (resize_pairs res ?ts ?h d) = tex_name (?h d)
      \<and> tex_type (resize_pairs res ?ts ?h d) = tex_type (?h d)
      \<and> resize_pairs res ?ts ?h s = ?h s"
    by blast
  with frame rest show ?thesis unfolding tex by blast
qed

theorem set_dimensions_effect_witness:
  "distinct (map snd (transfers separate_stage))
   \<and> fst ` set (transfers separate_stage) \<inter> snd ` set (transfers separate_stage) = {}
   \<and> textures (set_dimensions (800, 600) separate_stage) 1 =
        \<lparr>tex_name = ''T'', tex_type = TT_2d_texture_array, x_size = 800, y_size = 600, z_size = 2\<rparr>
   \<and> textures (set_dimensions (800, 600) separate_stage) 3 =
        \<lparr>tex_name = ''T'', tex_type = TT_2d_texture, x_size = 800, y_size = 600, z_size = 5\<rparr>
   \<and> textures (set_dimensions (800, 600) separate_stage) 0 = textures separate_stage 0
   \<and> textures (set_dimensions (800, 600) separate_stage) 2 = textures separate_stage 2"
  using set_dimensions_effect [of separate_stage "(800, 600)"]
  by (simp add: separate_stage_def set_dimensions_def resize_pair_def)

text \<open>
  C7 as stated fails when a texture is the destination of one pair and the source of
  another, or the destination of two pairs. With the pairs \<open>(0, 1)\<close>, \<open>(1, 2)\<close>, \<open>(3, 2)\<close>
  over 2D texture arrays of size 10 by 10 and z sizes 2, 3, 4, 5: texture 1, the source
  of the second pair, is resized; and texture 2 ends with the z size of texture 3, not
  that of texture 1, the source of the second pair.
\<close>

theorem set_dimensions_source_changed:
  "transfers chained_stage = [(0, 1), (1, 2), (3, 2)]
   \<and> x_size (textures chained_stage 1) = 10
   \<and> x_size (textures (set_dimensions (800, 600) chained_stage) 1) = 800
   \<and> z_size (textures chained_stage 1) = 3
   \<and> z_size (textures (set_dimensions (800, 600) chained_stage) 1) = 2
   \<and> z_size (textures (set_dimensions (800, 600) chained_stage) 2) = 5"
  by (simp add: chained_stage_def set_dimensions_def resize_pair_def)


subsection \<open>The generated shader\<close>



























section \<open>Properties of the probe manager\<close>

lemma add_probe_full:
  "length (probes pm) \<ge> max_probes pm \<Longrightarrow>
     add_probe probe pm =
       (False, pm\<lparr>manager_errors := manager_errors pm @ [''Cannot attach probe, out of slots!'']\<rparr>)"
  by (simp add: add_probe_def)

lemma add_probe_free:
  "length (probes pm) < max_probes pm \<Longrightarrow>
     add_probe probe pm =
       (True, pm\<lparr>probe_store := (probe_store pm)
                 (probe := (probe_store pm probe)\<lparr>last_update := - 1, index := int (length (probes pm))\<rparr>),
               probes := probes pm @ [probe]\<rparr>)"
  by (simp add: add_probe_def Let_def)

lemma max_probes_add_probe [simp]: "max_probes (snd (add_probe probe pm)) = max_probes pm"
  by (simp add: add_probe_def Let_def)

lemma max_probes_add_probes [simp]: "max_probes (add_probes ps pm) = max_probes pm"
  by (induction ps arbitrary: pm) simp_all

lemma probes_add_probe:
  "probes (snd (add_probe probe pm)) =
     (if length (probes pm) \<ge> max_probes pm then probes pm else probes pm @ [probe])"
  by (simp add: add_probe_def Let_def)

lemma indexed_add_probe:
  assumes "indexed pm" and "probe \<notin> set (probes pm)"
  shows "indexed (snd (add_probe probe pm))"
proof (cases "length (probes pm) \<ge> max_probes pm")
  case True
  with assms(1) show ?thesis by (simp add: add_probe_full indexed_def)
next
  case False
  then have free: "length (probes pm) < max_probes pm" by simp
  have "index (probe_store (snd (add_probe probe pm)) ((probes pm @ [probe]) ! i)) = int i"
    if "i < Suc (length (probes pm))" for i
  proof (cases "i < length (probes pm)")
    case True
    then have "probes pm ! i \<noteq> probe" using assms(2) by (metis nth_mem)
    with True assms(1) show ?thesis
      by (simp add: add_probe_free [OF free] nth_append indexed_def)
  next
    case False
    with that have "i = length (probes pm)" by simp
    then show ?thesis by (simp add: add_probe_free [OF free])
  qed
  with assms free show ?thesis
    by (simp add: indexed_def probes_add_probe)
qed

lemma indexed_add_probes:
  "indexed pm \<Longrightarrow> distinct ps \<Longrightarrow> set ps \<inter> set (probes pm) = {} \<Longrightarrow> indexed (add_probes ps pm)"
proof (induction ps arbitrary: pm)
  case Nil
  then show ?case by simp
next
  case (Cons p ps)
  from Cons.prems have fresh: "p \<notin> set (probes pm)" by auto
  have step: "indexed (snd (add_probe p pm))"
    using Cons.prems(1) fresh by (rule indexed_add_probe)
  have "set (probes (snd (add_probe p pm))) \<subseteq> insert p (set (probes pm))"
    by (auto simp: probes_add_probe)
  with Cons.prems have "set ps \<inter> set (probes (snd (add_probe p pm))) = {}" by auto
  with Cons.IH [OF step] Cons.prems(2) show ?case by simp
qed

text \<open>
  C9 (as amended). When the list holds \<open>max_probes\<close> probes or more, \<open>add_probe\<close>
  returns false and leaves the probe list and the probes unchanged. Otherwise it sets the
  probe's \<open>last_update\<close> to \<open>-1\<close> and its index to the previous length of the list,
  appends it and returns true. After any sequence of \<open>add_probe\<close> calls with pairwise
  different probes, starting from the empty list, the list is no longer than
  \<open>max_probes\<close> and every stored probe's index is its position in the list.
\<close>

theorem add_probe_effect:
  "(length (probes pm) \<ge> max_probes pm \<longrightarrow>
      fst (add_probe probe pm) = False
    \<and> probes (snd (add_probe probe pm)) = probes pm
    \<and> probe_store (snd (add_probe probe pm)) = probe_store pm)
   \<and> (length (probes pm) < max_probes pm \<longrightarrow>
      fst (add_probe probe pm) = True
    \<and> snd (add_probe probe pm) =
        pm\<lparr>probe_store := (probe_store pm)
             (probe := (probe_store pm probe)\<lparr>last_update := - 1, index := int (length (probes pm))\<rparr>),
           probes := probes pm @ [probe]\<rparr>)
   \<and> (probes pm = [] \<and> distinct ps \<longrightarrow>
      length (probes (add_probes ps pm)) \<le> max_probes pm
    \<and> (\<forall>i<length (probes (add_probes ps pm)).
          index (probe_store (add_probes ps pm) (probes (add_probes ps pm) ! i)) = int i))"
proof -
  have seq: "length (probes (add_probes ps pm)) \<le> max_probes pm
      \<and> (\<forall>i<length (probes (add_probes ps pm)).
            index (probe_store (add_probes ps pm) (probes (add_probes ps pm) ! i)) = int i)"
    if "probes pm = []" and "distinct ps"
  proof -
    from that(1) have "indexed pm" by (simp add: indexed_def)
    with that have "indexed (add_probes ps pm)" by (simp add: indexed_add_probes)
    then show ?thesis by (simp add: indexed_def)
  qed
  show ?thesis
    using seq by (simp add: add_probe_full add_probe_free)
qed

theorem add_probe_effect_witness:
  "length (probes empty_manager) < max_probes empty_manager
   \<and> add_probe 5 empty_manager =
       (True, empty_manager\<lparr>probe_store := (probe_store empty_manager)(5 := \<lparr>last_update = - 1, index = 0\<rparr>),
                probes := [5]\<rparr>)
   \<and> length (probes (add_probes [5, 6] empty_manager)) \<ge> max_probes (add_probes [5, 6] empty_manager)
   \<and> fst (add_probe 7 (add_probes [5, 6] empty_manager)) = False
   \<and> probes (snd (add_probe 7 (add_probes [5, 6] empty_manager))) = [5, 6]
   \<and> probes empty_manager = [] \<and> distinct [5, 6, 7 :: nat]
   \<and> probes (add_probes [5, 6, 7] empty_manager) = [5, 6]
   \<and> index (probe_store (add_probes [5, 6, 7] empty_manager) 5) = 0
   \<and> index (probe_store (add_probes [5, 6, 7] empty_manager) 6) = 1"
  using add_probe_effect [of empty_manager 5 "[5, 6, 7]"]
    add_probe_effect [of "add_probes [5, 6] empty_manager" 7 "[]"]
  by (simp add: empty_manager_def add_probe_def)

text \<open>
  C9 as stated fails when the same probe is added twice: it is stored at positions 0 and
  1, and its index is 1.
\<close>

theorem add_probe_twice:
  "probes (add_probes [5, 5] empty_manager) = [5, 5]
   \<and> probes (add_probes [5, 5] empty_manager) ! 0 = 5
   \<and> index (probe_store (add_probes [5, 5] empty_manager) 5) = 1"
  by (simp add: empty_manager_def add_probe_def)


subsection \<open>Choosing the probe to update\<close>

lemma first_candidate_None:
  "first_candidate c xs = None \<longleftrightarrow> (\<forall>x \<in> set xs. c x = IF_no_intersection)"
  by (induction xs) auto

lemma first_candidate_Some:
  "first_candidate c xs = Some p \<Longrightarrow>
     \<exists>ys zs. xs = ys @ p # zs \<and> (\<forall>y \<in> set ys. c y = IF_no_intersection) \<and> c p \<noteq> IF_no_intersection"
proof (induction xs)
  case Nil
  then show ?case by simp
next
  case (Cons x xs)
  show ?case
  proof (cases "c x = IF_no_intersection")
    case True
    with Cons.prems have "first_candidate c xs = Some p" by simp
    from Cons.IH [OF this] obtain ys zs where
      "xs = ys @ p # zs" "\<forall>y \<in> set ys. c y = IF_no_intersection" "c p \<noteq> IF_no_intersection"
      by blast
    with True have "x # xs = (x # ys) @ p # zs \<and> (\<forall>y \<in> set (x # ys). c y = IF_no_intersection)
        \<and> c p \<noteq> IF_no_intersection"
      by simp
    then show ?thesis by blast
  next
    case False
    with Cons.prems have "p = x" by simp
    with False have "x # xs = [] @ p # xs \<and> (\<forall>y \<in> set []. c y = IF_no_intersection)
        \<and> c p \<noteq> IF_no_intersection"
      by simp
    then show ?thesis by blast
  qed
qed

lemma first_candidate_least:
  assumes "first_candidate c xs = Some p" and "sorted_wrt (\<lambda>a b. \<not> lt b a) xs"
    and "q \<in> set xs" and "c q \<noteq> IF_no_intersection"
  shows "q = p \<or> \<not> lt q p"
proof -
  from first_candidate_Some [OF assms(1)] obtain ys zs where
    xs: "xs = ys @ p # zs" and ys: "\<forall>y \<in> set ys. c y = IF_no_intersection"
    by blast
  from assms(3,4) xs ys have "q = p \<or> q \<in> set zs" by auto
  moreover from assms(2) xs have "\<forall>z \<in> set zs. \<not> lt z p"
    by (simp add: sorted_wrt_append)
  ultimately show ?thesis by blast
qed

text \<open>
  C10. Whatever rearrangement \<open>std::sort\<close> returns, as long as it is sorted by
  \<open>last_update\<close>: \<open>find_probe_to_update\<close> returns the null pointer exactly when the
  probe list is empty or the frustum test reports no intersection for every stored
  probe; a probe it returns is stored, intersects the frustum, and no stored probe that
  intersects the frustum has a smaller \<open>last_update\<close>; the manager, with its probe list,
  is unchanged.
\<close>

theorem find_probe_to_update_effect:
  assumes "mset (std_sort (\<lambda>lhs rhs. last_update (probe_store pm lhs) < last_update (probe_store pm rhs))
                   (probes pm)) = mset (probes pm)"
    and "sorted_wrt (\<lambda>a b. \<not> last_update (probe_store pm b) < last_update (probe_store pm a))
           (std_sort (\<lambda>lhs rhs. last_update (probe_store pm lhs) < last_update (probe_store pm rhs))
              (probes pm))"
  shows "(fst (find_probe_to_update std_sort frustum_contains pm) = None \<longleftrightarrow>
            probes pm = [] \<or> (\<forall>p \<in> set (probes pm). frustum_contains p = IF_no_intersection))
       \<and> (\<forall>p. fst (find_probe_to_update std_sort frustum_contains pm) = Some p \<longrightarrow>
              p \<in> set (probes pm) \<and> frustum_contains p \<noteq> IF_no_intersection
            \<and> (\<forall>q \<in> set (probes pm). frustum_contains q \<noteq> IF_no_intersection \<longrightarrow>
                  last_update (probe_store pm p) \<le> last_update (probe_store pm q)))
       \<and> snd (find_probe_to_update std_sort frustum_contains pm) = pm"
proof -
  let ?less = "\<lambda>lhs rhs. last_update (probe_store pm lhs) < last_update (probe_store pm rhs)"
  let ?xs = "std_sort ?less (probes pm)"
  from assms(1) have set_eq: "set ?xs = set (probes pm)" by (rule mset_eq_setD)
  have res: "fst (find_probe_to_update std_sort frustum_contains pm) =
      (if probes pm = [] then None else first_candidate frustum_contains ?xs)"
    by (simp add: find_probe_to_update_def Let_def)
  have none: "fst (find_probe_to_update std_sort frustum_contains pm) = None \<longleftrightarrow>
      probes pm = [] \<or> (\<forall>p \<in> set (probes pm). frustum_contains p = IF_no_intersection)"
    unfolding res using set_eq by (simp add: first_candidate_None)
  have some: "p \<in> set (probes pm) \<and> frustum_contains p \<noteq> IF_no_intersection
      \<and> (\<forall>q \<in> set (probes pm). frustum_contains q \<noteq> IF_no_intersection \<longrightarrow>
            last_update (probe_store pm p) \<le> last_update (probe_store pm q))"
    if "fst (find_probe_to_update std_sort frustum_contains pm) = Some p" for p
  proof -
    from that have fc: "first_candidate frustum_contains ?xs = Some p"
      unfolding res by (simp split: if_splits)
    from first_candidate_Some [OF fc] set_eq
    have p: "p \<in> set (probes pm)" "frustum_contains p \<noteq> IF_no_intersection" by auto
    have "last_update (probe_store pm p) \<le> last_update (probe_store pm q)"
      if "q \<in> set (probes pm)" "frustum_contains q \<noteq> IF_no_intersection" for q
    proof -
      from that set_eq have "q \<in> set ?xs" by simp
      from first_candidate_least [OF fc, of ?less q, OF assms(2) this that(2)]
      show ?thesis by auto
    qed
    with p show ?thesis by blast
  qed
  have unchanged: "snd (find_probe_to_update std_sort frustum_contains pm) = pm"
    by (simp add: find_probe_to_update_def Let_def)
  from none some unchanged show ?thesis by blast
qed

theorem find_probe_to_update_effect_witness:
  "mset (insertion_sort (\<lambda>lhs rhs. last_update (probe_store viewing_manager lhs)
                                     < last_update (probe_store viewing_manager rhs))
           (probes viewing_manager)) = mset (probes viewing_manager)
   \<and> sorted_wrt (\<lambda>a b. \<not> last_update (probe_store viewing_manager b)
                           < last_update (probe_store viewing_manager a))
        (insertion_sort (\<lambda>lhs rhs. last_update (probe_store viewing_manager lhs)
                                     < last_update (probe_store viewing_manager rhs))
           (probes viewing_manager))
   \<and> find_probe_to_update insertion_sort example_frustum viewing_manager = (Some 4, viewing_manager)
   \<and> 4 \<in> set (probes viewing_manager) \<and> example_frustum 4 \<noteq> IF_no_intersection
   \<and> example_frustum 2 = IF_no_intersection
   \<and> find_probe_to_update insertion_sort (\<lambda>p. 0) viewing_manager = (None, viewing_manager)"
  using find_probe_to_update_effect [of insertion_sort viewing_manager example_frustum]
    find_probe_to_update_effect [of insertion_sort viewing_manager "\<lambda>p. 0"]
  by (simp add: viewing_manager_def find_probe_to_update_def example_frustum_def
        IF_no_intersection_def)


section \<open>Properties of the env\_probes plugin\<close>

lemma setup_stages_result:
  assumes "probe_mgr st = Some pm" and "cubemap_storage pm = Some c" and "diffuse_storage pm = Some f"
    and "dataset_storage pm = Some s"
  shows "setup_stages st =
     Inr (st\<lparr>pipeline_stages := pipeline_stages st
                @ [EnvironmentCaptureStage, CullProbesStage, ApplyEnvprobesStage],
             capture_stage := Some \<lparr>capture_resolution = resolution pm,
                 capture_diffuse_resolution = diffuse_resolution pm,
                 storage_tex = c, storage_tex_diffuse = f\<rparr>,
             capture_required_pipes := capture_required_pipes st
                @ (if ''scattering'' \<in> enabled_plugins st
                   then [''ScatteringIBLSpecular'', ''ScatteringIBLDiffuse''] else [])
                @ (if ''pssm'' \<in> enabled_plugins st then [''PSSMSceneSunShadowMapPCF''] else []),
             capture_required_inputs := capture_required_inputs st
                @ (if ''pssm'' \<in> enabled_plugins st then [''PSSMSceneSunShadowMVP''] else []),
             input_blocks := input_blocks st
                @ [(''EnvProbes'', [''num_probes'', ''cubemaps'', ''diffuse_cubemaps'', ''dataset''])],
             cull_lights_required_inputs := cull_lights_required_inputs st @ [''EnvProbes'']\<rparr>)"
  using assms by (simp add: setup_stages_def setup_inputs_def add_stage_def Let_def)

text \<open>
  C4. \<open>on_stage_setup\<close> completes and registers exactly three stages, in this order: the
  environment capture stage, the cull-probes stage and the apply-envprobes stage. To the
  required pipes of the capture stage it appends \<open>ScatteringIBLSpecular\<close> and
  \<open>ScatteringIBLDiffuse\<close> if and only if the scattering plugin is enabled, and
  \<open>PSSMSceneSunShadowMapPCF\<close> if and only if the pssm plugin is enabled; to its required
  inputs it appends \<open>PSSMSceneSunShadowMVP\<close> if and only if the pssm plugin is enabled;
  it appends nothing else to either.
\<close>

theorem on_stage_setup_effect:
  "\<exists>st1. on_stage_setup settings new_manager st = Inr st1
     \<and> pipeline_stages st1 =
         pipeline_stages st @ [EnvironmentCaptureStage, CullProbesStage, ApplyEnvprobesStage]
     \<and> appended (capture_required_pipes st) (capture_required_pipes st1) =
         (if ''scattering'' \<in> enabled_plugins st
          then [''ScatteringIBLSpecular'', ''ScatteringIBLDiffuse''] else [])
         @ (if ''pssm'' \<in> enabled_plugins st then [''PSSMSceneSunShadowMapPCF''] else [])
     \<and> capture_required_pipes st1 =
         capture_required_pipes st @ appended (capture_required_pipes st) (capture_required_pipes st1)
     \<and> appended (capture_required_inputs st) (capture_required_inputs st1) =
         (if ''pssm'' \<in> enabled_plugins st then [''PSSMSceneSunShadowMVP''] else [])
     \<and> capture_required_inputs st1 =
         capture_required_inputs st @ appended (capture_required_inputs st) (capture_required_inputs st1)
     \<and> (''ScatteringIBLSpecular'' \<in> set (appended (capture_required_pipes st) (capture_required_pipes st1))
          \<longleftrightarrow> ''scattering'' \<in> enabled_plugins st)
     \<and> (''ScatteringIBLDiffuse'' \<in> set (appended (capture_required_pipes st) (capture_required_pipes st1))
          \<longleftrightarrow> ''scattering'' \<in> enabled_plugins st)
     \<and> (''PSSMSceneSunShadowMapPCF'' \<in> set (appended (capture_required_pipes st) (capture_required_pipes st1))
          \<longleftrightarrow> ''pssm'' \<in> enabled_plugins st)
     \<and> (''PSSMSceneSunShadowMVP'' \<in> set (appended (capture_required_inputs st) (capture_required_inputs st1))
          \<longleftrightarrow> ''pssm'' \<in> enabled_plugins st)"
proof -
  let ?pm = "init (new_manager\<lparr>resolution := probe_resolution settings,
      diffuse_resolution := diffuse_probe_resolution settings,
      max_probes := nat (max_probes_setting settings mod 2 ^ 64)\<rparr>)"
  have run: "on_stage_setup settings new_manager st = setup_stages (st\<lparr>probe_mgr := Some ?pm\<rparr>)"
    by (simp add: on_stage_setup_def Let_def)
  have "probe_mgr (st\<lparr>probe_mgr := Some ?pm\<rparr>) = Some ?pm"
    and "cubemap_storage ?pm = Some ''EnvmapStorage''"
    and "diffuse_storage ?pm = Some ''EnvmapDiffStorage''"
    and "dataset_storage ?pm = Some ''EnvmapData''"
    by (simp_all add: init_def)
  from setup_stages_result [OF this] run
  show ?thesis by (simp add: appended_def)
qed

theorem on_stage_setup_effect_witness:
  "map_sum id (\<lambda>st1. (pipeline_stages st1, capture_required_pipes st1, capture_required_inputs st1))
      (on_stage_setup example_settings fresh_manager (example_plugin {''pssm''}))
     = Inr ([EnvironmentCaptureStage, CullProbesStage, ApplyEnvprobesStage],
            [''DefaultEnvmap'', ''PSSMSceneSunShadowMapPCF''],
            [''AllLightsData'', ''PSSMSceneSunShadowMVP''])
   \<and> map_sum id (\<lambda>st1. (pipeline_stages st1, capture_required_pipes st1, capture_required_inputs st1))
      (on_stage_setup example_settings fresh_manager (example_plugin {''scattering''}))
     = Inr ([EnvironmentCaptureStage, CullProbesStage, ApplyEnvprobesStage],
            [''DefaultEnvmap'', ''ScatteringIBLSpecular'', ''ScatteringIBLDiffuse''],
            [''AllLightsData''])"
  using on_stage_setup_effect [of example_settings fresh_manager "example_plugin {''pssm''}"]
    on_stage_setup_effect [of example_settings fresh_manager "example_plugin {''scattering''}"]
  by (auto simp: example_plugin_def appended_def)


section \<open>Properties of the stage manager\<close>

lemma find_ready:
  "find (ready todo) todo = Some s \<Longrightarrow> s \<in> set todo \<and> ready todo s"
  by (auto simp: find_Some_iff)

lemma sort_stages_sound:
  "sort_stages todo = Some order \<Longrightarrow>
     mset order = mset todo \<and> sorted_wrt (\<lambda>a b. \<not> depends_on a b) order
     \<and> (\<forall>s \<in> set order. \<not> depends_on s s)"
proof (induction todo arbitrary: order rule: sort_stages.induct)
  case (1 todo)
  show ?case
  proof (cases "todo = []")
    case True
    with "1.prems" show ?thesis by (simp add: sort_stages.simps)
  next
    case False
    with "1.prems" obtain s rest where
      f: "find (ready todo) todo = Some s" and r: "sort_stages (remove1 s todo) = Some rest"
      and o: "order = s # rest"
      by (auto simp: sort_stages.simps [of todo] split: option.splits)
    from find_ready [OF f] have mem: "s \<in> set todo" and rdy: "ready todo s" by simp_all
    from "1.IH" [OF False f r] have
      ms: "mset rest = mset (remove1 s todo)"
      and srt: "sorted_wrt (\<lambda>a b. \<not> depends_on a b) rest"
      and self: "\<forall>s \<in> set rest. \<not> depends_on s s"
      by simp_all
    from ms have "set rest = set (remove1 s todo)" by (rule mset_eq_setD)
    then have sub: "set rest \<subseteq> set todo" using set_remove1_subset by fast
    from ms mem have "mset order = mset todo" by (simp add: o)
    moreover from rdy sub srt have "sorted_wrt (\<lambda>a b. \<not> depends_on a b) order"
      by (auto simp: o ready_def)
    moreover from rdy mem self have "\<forall>s \<in> set order. \<not> depends_on s s"
      by (auto simp: o ready_def)
    ultimately show ?thesis by simp
  qed
qed

lemma ready_exists:
  assumes "acyclic (dependency stages)" and "set todo \<subseteq> set stages" and "todo \<noteq> []"
  shows "\<exists>s. find (ready todo) todo = Some s"
proof -
  have "finite (dependency stages)"
  proof (rule finite_subset)
    show "dependency stages \<subseteq> set stages \<times> set stages" by (auto simp: dependency_def)
  qed simp
  then have wf: "wf (dependency stages)" using assms(1) by (rule finite_acyclic_wf)
  from assms(3) have "hd todo \<in> set todo" by simp
  with wf obtain z where z: "z \<in> set todo"
    and min: "\<And>y. (y, z) \<in> dependency stages \<Longrightarrow> y \<notin> set todo"
    by (rule wfE_min) blast
  have "ready todo z"
    unfolding ready_def
  proof
    fix t assume t: "t \<in> set todo"
    show "\<not> depends_on z t"
    proof
      assume "depends_on z t"
      with t z assms(2) have "(t, z) \<in> dependency stages" by (auto simp: dependency_def)
      from min [OF this] t show False by simp
    qed
  qed
  with z have "\<exists>x \<in> set todo. ready todo x" by blast
  then have "find (ready todo) todo \<noteq> None" by (auto simp: find_None_iff)
  then show ?thesis by auto
qed

lemma sort_stages_complete:
  "acyclic (dependency stages) \<Longrightarrow> set todo \<subseteq> set stages \<Longrightarrow> \<exists>order. sort_stages todo = Some order"
proof (induction todo rule: sort_stages.induct)
  case (1 todo)
  show ?case
  proof (cases "todo = []")
    case True
    then show ?thesis by (simp add: sort_stages.simps)
  next
    case False
    from ready_exists [OF "1.prems" False] obtain s where f: "find (ready todo) todo = Some s"
      by blast
    from "1.prems"(2) have "set (remove1 s todo) \<subseteq> set stages"
      using set_remove1_subset by fast
    from "1.IH" [OF False f "1.prems"(1) this] obtain rest
      where "sort_stages (remove1 s todo) = Some rest" by blast
    with False f show ?thesis by (simp add: sort_stages.simps [of todo])
  qed
qed

lemma run_callbacks_map: "run_callbacks cb order = map (\<lambda>s. (cb, decl_id s)) order"
  by (induction order) simp_all

lemma example_sort:
  "sort_stages [final_stage, ao_stage, gbuffer_stage] = Some [gbuffer_stage, ao_stage, final_stage]"
  by (simp add: sort_stages.simps ready_def depends_on_def gbuffer_stage_def ao_stage_def
        final_stage_def)

text \<open>
  C1. For every list of registered stages whose dependency relation is acyclic, the
  stage manager finds an order. The order is a rearrangement of the registered stages in
  which every stage that requires a pipe comes after every stage that produces that
  pipe, and each of the callbacks setup, update and reload is invoked on the stages in
  exactly that order.
\<close>

theorem stage_order_topological:
  assumes "acyclic (dependency stages)"
  shows "\<exists>order. sort_stages stages = Some order
     \<and> mset order = mset stages
     \<and> (\<forall>i<length order. \<forall>j<length order. depends_on (order ! i) (order ! j) \<longrightarrow> j < i)
     \<and> (\<forall>cb. trigger cb stages = Some (map (\<lambda>s. (cb, decl_id s)) order))"
proof -
  from sort_stages_complete [OF assms, of stages] obtain order
    where so: "sort_stages stages = Some order" by blast
  from sort_stages_sound [OF so] have ms: "mset order = mset stages"
    and srt: "sorted_wrt (\<lambda>a b. \<not> depends_on a b) order"
    and self: "\<forall>s \<in> set order. \<not> depends_on s s"
    by simp_all
  have topo: "j < i" if "i < length order" "j < length order" "depends_on (order ! i) (order ! j)"
    for i j
  proof (rule ccontr)
    assume "\<not> j < i"
    then consider "i = j" | "i < j" by linarith
    then show False
    proof cases
      case 1
      with that self show False by (metis nth_mem)
    next
      case 2
      with srt that show False by (simp add: sorted_wrt_iff_nth_less)
    qed
  qed
  have "\<forall>cb. trigger cb stages = Some (map (\<lambda>s. (cb, decl_id s)) order)"
    by (simp add: trigger_def so run_callbacks_map)
  with so ms topo show ?thesis by blast
qed


theorem stage_order_topological_witness:
  "acyclic (dependency [final_stage, ao_stage, gbuffer_stage])
   \<and> sort_stages [final_stage, ao_stage, gbuffer_stage] = Some [gbuffer_stage, ao_stage, final_stage]
   \<and> depends_on final_stage ao_stage \<and> depends_on ao_stage gbuffer_stage
   \<and> trigger Setup [final_stage, ao_stage, gbuffer_stage] =
        Some [(Setup, ''GBufferStage''), (Setup, ''AOStage''), (Setup, ''FinalStage'')]"
proof -
  have ac: "acyclic (dependency [final_stage, ao_stage, gbuffer_stage])"
    by (rule acyclicI_order [where f = "\<lambda>s. 3 - length (required_pipes s)"])
      (auto simp: dependency_def depends_on_def gbuffer_stage_def ao_stage_def final_stage_def)
  from stage_order_topological [OF ac] obtain order where
    "sort_stages [final_stage, ao_stage, gbuffer_stage] = Some order"
    "\<forall>cb. trigger cb [final_stage, ao_stage, gbuffer_stage] = Some (map (\<lambda>s. (cb, decl_id s)) order)"
    by blast
  moreover have "depends_on final_stage ao_stage \<and> depends_on ao_stage gbuffer_stage"
    by (simp add: depends_on_def gbuffer_stage_def ao_stage_def final_stage_def)
  moreover have "map (\<lambda>s. (Setup, decl_id s)) [gbuffer_stage, ao_stage, final_stage] =
      [(Setup, ''GBufferStage''), (Setup, ''AOStage''), (Setup, ''FinalStage'')]"
    by (simp add: gbuffer_stage_def ao_stage_def final_stage_def)
  ultimately show ?thesis using ac by (simp add: example_sort)
qed

end
